theory Spec2Isabelle
  imports Complex_Main
begin

section \<open>Floating-point values\<close>

text \<open>
  The estimators of \<^verbatim>\<open>src/dlfx\<close> compute with binary64 floats (numpy arrays and
  Python floats). A float is modelled as a finite real number, one of the two infinities,
  or NaN. Arithmetic on finite values is exact (rounding, overflow and underflow of
  binary64 are not modelled), and the zero divisor of a division is the positive zero.
  The special values follow IEEE 754 as numpy implements it: every comparison with NaN is
  false, \<open>inf - inf\<close>, \<open>0 * inf\<close>, \<open>0 / 0\<close> and \<open>inf / inf\<close> are NaN.
\<close>

datatype fl = Fin real | PInf | NInf | NaN

fun isfinite :: "fl \<Rightarrow> bool" where
  "isfinite (Fin _) = True"
| "isfinite _ = False"

fun isnan :: "fl \<Rightarrow> bool" where
  "isnan NaN = True"
| "isnan _ = False"

fun fneg :: "fl \<Rightarrow> fl" where
  "fneg (Fin a) = Fin (- a)"
| "fneg PInf = NInf"
| "fneg NInf = PInf"
| "fneg NaN = NaN"

fun fadd :: "fl \<Rightarrow> fl \<Rightarrow> fl" where
  "fadd (Fin a) (Fin b) = Fin (a + b)"
| "fadd NaN _ = NaN"
| "fadd _ NaN = NaN"
| "fadd PInf NInf = NaN"
| "fadd NInf PInf = NaN"
| "fadd PInf _ = PInf"
| "fadd _ PInf = PInf"
| "fadd NInf _ = NInf"
| "fadd _ NInf = NInf"

definition fsub :: "fl \<Rightarrow> fl \<Rightarrow> fl" where
  "fsub a b = fadd a (fneg b)"

text \<open>The sign of a float: \<open>1\<close>, \<open>0\<close> or \<open>-1\<close>; NaN has none.\<close>

fun fsign :: "fl \<Rightarrow> int option" where
  "fsign (Fin a) = Some (if a > 0 then 1 else if a < 0 then - 1 else 0)"
| "fsign PInf = Some 1"
| "fsign NInf = Some (- 1)"
| "fsign NaN = None"

definition inf_of_sign :: "int \<Rightarrow> fl" where
  "inf_of_sign s = (if s > 0 then PInf else if s < 0 then NInf else NaN)"

fun fmul :: "fl \<Rightarrow> fl \<Rightarrow> fl" where
  "fmul (Fin a) (Fin b) = Fin (a * b)"
| "fmul NaN _ = NaN"
| "fmul _ NaN = NaN"
| "fmul a b = inf_of_sign (the (fsign a) * the (fsign b))"

text \<open>
  numpy's true division: dividing by zero gives an infinity of the dividend's sign, or NaN
  for \<open>0 / 0\<close>, with a warning and no exception.
\<close>

fun fdiv :: "fl \<Rightarrow> fl \<Rightarrow> fl" where
  "fdiv (Fin a) (Fin b) =
     (if b \<noteq> 0 then Fin (a / b)
      else if a > 0 then PInf else if a < 0 then NInf else NaN)"
| "fdiv NaN _ = NaN"
| "fdiv _ NaN = NaN"
| "fdiv (Fin a) _ = Fin 0"
| "fdiv PInf (Fin b) = (if b \<ge> 0 then PInf else NInf)"
| "fdiv NInf (Fin b) = (if b \<ge> 0 then NInf else PInf)"
| "fdiv _ _ = NaN"

fun flt :: "fl \<Rightarrow> fl \<Rightarrow> bool" where
  "flt (Fin a) (Fin b) = (a < b)"
| "flt NaN _ = False"
| "flt _ NaN = False"
| "flt PInf _ = False"
| "flt _ PInf = True"
| "flt _ NInf = False"
| "flt NInf _ = True"

definition feq :: "fl \<Rightarrow> fl \<Rightarrow> bool" where
  "feq a b = (a = b \<and> a \<noteq> NaN)"

definition fle :: "fl \<Rightarrow> fl \<Rightarrow> bool" where
  "fle a b = (flt a b \<or> feq a b)"

definition fgt :: "fl \<Rightarrow> fl \<Rightarrow> bool" where
  "fgt a b = flt b a"

definition fge :: "fl \<Rightarrow> fl \<Rightarrow> bool" where
  "fge a b = fle b a"

text \<open>\<^verbatim>\<open>np.minimum\<close> propagates NaN.\<close>

definition np_minimum :: "fl \<Rightarrow> fl \<Rightarrow> fl" where
  "np_minimum a b = (if isnan a \<or> isnan b then NaN else if flt b a then b else a)"


text \<open>
  Python's builtin \<^verbatim>\<open>max(a, b)\<close> keeps its first argument unless the second
  compares greater, so a NaN in second place is dropped and one in first place is kept.
\<close>

definition py_max :: "fl \<Rightarrow> fl \<Rightarrow> fl" where
  "py_max a b = (if fgt b a then b else a)"

fun fsqrt :: "fl \<Rightarrow> fl" where
  "fsqrt (Fin a) = (if a < 0 then NaN else Fin (sqrt a))"
| "fsqrt PInf = PInf"
| "fsqrt _ = NaN"

fun fexp :: "fl \<Rightarrow> fl" where
  "fexp (Fin a) = Fin (exp a)"
| "fexp PInf = PInf"
| "fexp NInf = Fin 0"
| "fexp NaN = NaN"

fun flog :: "fl \<Rightarrow> fl" where
  "flog (Fin a) = (if a > 0 then Fin (ln a) else if a = 0 then NInf else NaN)"
| "flog PInf = PInf"
| "flog _ = NaN"


text \<open>\<^verbatim>\<open>np.sum\<close> of an array; the sum of the empty array is \<open>0.0\<close>.\<close>

definition np_sum :: "fl list \<Rightarrow> fl" where
  "np_sum xs = foldr fadd xs (Fin 0)"

text \<open>A boolean mask selects the entries of an array where the mask is true.\<close>

definition masked :: "bool list \<Rightarrow> 'a list \<Rightarrow> 'a list" where
  "masked m xs = map snd (filter fst (zip m xs))"

section \<open>Kish effective sample size (\<^verbatim>\<open>effects.py\<close>, \<^verbatim>\<open>_kish_effective_n\<close>)\<close>



section \<open>Weighted binary risks (\<^verbatim>\<open>effects.py\<close>, \<^verbatim>\<open>weighted_binary_risks\<close>)\<close>





text \<open>
  An arm of zero total weight under the weight vector's invariant (finite, non-negative
  weights): the weights selected by the mask are non-negative numbers that sum to zero.
\<close>

fun nonneg_finite :: "fl \<Rightarrow> bool" where
  "nonneg_finite (Fin a) = (0 \<le> a)"
| "nonneg_finite _ = False"


section \<open>Balance diagnostics (\<^verbatim>\<open>balance.py\<close>)\<close>

definition weighted_mean :: "fl list \<Rightarrow> fl list \<Rightarrow> fl" where
  "weighted_mean x w = fdiv (np_sum (map2 fmul w x)) (np_sum w)"

definition weighted_var :: "fl list \<Rightarrow> fl list \<Rightarrow> fl" where
  "weighted_var x w =
     (let mu = weighted_mean x w
      in fdiv (np_sum (map2 fmul w (map (\<lambda>v. fmul (fsub v mu) (fsub v mu)) x))) (np_sum w))"

text \<open>\<^verbatim>\<open>np.mean\<close> and \<^verbatim>\<open>np.var(ddof=0)\<close>; both are NaN on the empty array.\<close>

definition np_mean :: "fl list \<Rightarrow> fl" where
  "np_mean x = fdiv (np_sum x) (Fin (real (length x)))"

definition np_var :: "fl list \<Rightarrow> fl" where
  "np_var x = (let mu = np_mean x in np_mean (map (\<lambda>v. fmul (fsub v mu) (fsub v mu)) x))"

text \<open>The arm means and variances \<open>(m1, m0, v1, v0)\<close>, unweighted or weighted.\<close>

definition smd_moments :: "fl list \<Rightarrow> int list \<Rightarrow> fl list option \<Rightarrow> fl \<times> fl \<times> fl \<times> fl" where
  "smd_moments x t w =
     (let x1 = masked (map (\<lambda>v. v = 1) t) x;
          x0 = masked (map (\<lambda>v. v = 0) t) x
      in case w of
           None \<Rightarrow> (np_mean x1, np_mean x0, np_var x1, np_var x0)
         | Some w \<Rightarrow>
             (let w1 = masked (map (\<lambda>v. v = 1) t) w;
                  w0 = masked (map (\<lambda>v. v = 0) t) w
              in (weighted_mean x1 w1, weighted_mean x0 w0,
                  weighted_var x1 w1, weighted_var x0 w0)))"

text \<open>The pooled standard deviation: \<^verbatim>\<open>np.sqrt((v1 + v0) / 2.0)\<close>.\<close>

definition smd_pooled :: "fl list \<Rightarrow> int list \<Rightarrow> fl list option \<Rightarrow> fl" where
  "smd_pooled x t w =
     (case smd_moments x t w of (m1, m0, v1, v0) \<Rightarrow> fsqrt (fdiv (fadd v1 v0) (Fin 2)))"


section \<open>Sorting floats\<close>

text \<open>
  numpy and pandas sort floats in the order \<open>-inf < finite < +inf\<close> and put NaN last.
  This total order is the one \<open>sort\<close> uses below; on values that are not NaN it agrees
  with the comparison \<open>flt\<close>.
\<close>

instantiation fl :: linorder
begin

fun less_eq_fl :: "fl \<Rightarrow> fl \<Rightarrow> bool" where
  "less_eq_fl _ NaN = True"
| "less_eq_fl NaN _ = False"
| "less_eq_fl NInf _ = True"
| "less_eq_fl _ NInf = False"
| "less_eq_fl _ PInf = True"
| "less_eq_fl PInf _ = False"
| "less_eq_fl (Fin a) (Fin b) = (a \<le> b)"

definition less_fl :: "fl \<Rightarrow> fl \<Rightarrow> bool" where
  "less_fl a b = (a \<le> b \<and> \<not> b \<le> a)"

instance
proof
  fix x y z :: fl
  show "(x < y) = (x \<le> y \<and> \<not> y \<le> x)" by (simp add: less_fl_def)
  show "x \<le> x" by (cases x) simp_all
  show "x \<le> y \<Longrightarrow> y \<le> z \<Longrightarrow> x \<le> z" by (cases x; cases y; cases z) simp_all
  show "x \<le> y \<Longrightarrow> y \<le> x \<Longrightarrow> x = y" by (cases x; cases y) simp_all
  show "x \<le> y \<or> y \<le> x" by (cases x; cases y) auto
qed

end

section \<open>Weighted Kaplan--Meier risk (\<^verbatim>\<open>effects.py\<close>, \<^verbatim>\<open>weighted_km_risk_at\<close>)\<close>

text \<open>
  A row of the frame restricted to the three columns the function reads. A missing cell
  is NaN in a float column and \<open>None\<close> in the event column.
\<close>

record km_row =
  duration :: fl
  event :: "int option"
  weight :: fl

definition km_dropna :: "km_row list \<Rightarrow> km_row list" where
  "km_dropna df = filter (\<lambda>r. \<not> isnan (duration r) \<and> event r \<noteq> None \<and> \<not> isnan (weight r)) df"

text \<open>The sums of pandas (\<^verbatim>\<open>Series.sum\<close>, \<^verbatim>\<open>groupby(...).sum()\<close>) skip NaN.\<close>

definition pd_sum :: "fl list \<Rightarrow> fl" where
  "pd_sum xs = np_sum (filter (\<lambda>x. \<not> isnan x) xs)"

text \<open>
  The frame \<open>grouped\<close>: one row \<open>(t, w_total, w_event)\<close> for each distinct duration, in
  ascending order of duration, with the sums of \<open>w\<close> and of \<open>w * (event == 1)\<close> over the
  rows of that duration.
\<close>

definition km_w_event :: "km_row \<Rightarrow> fl" where
  "km_w_event r = fmul (weight r) (Fin (if event r = Some 1 then 1 else 0))"

definition km_grouped :: "km_row list \<Rightarrow> (fl \<times> fl \<times> fl) list" where
  "km_grouped work =
     map (\<lambda>u. (u, pd_sum (map weight (filter (\<lambda>r. duration r = u) work)),
                  pd_sum (map km_w_event (filter (\<lambda>r. duration r = u) work))))
         (sort (remdups (map duration work)))"

text \<open>
  One pass of the loop body past the \<^verbatim>\<open>break\<close> test, on the state \<open>(s, risk)\<close>:
  \<^verbatim>\<open>if risk > 0 and d > 0: s *= max(0.0, 1.0 - (d / risk))\<close>, then
  \<^verbatim>\<open>risk -= w_total\<close>.
\<close>

definition km_step :: "fl \<times> fl \<Rightarrow> fl \<times> fl \<times> fl \<Rightarrow> fl \<times> fl" where
  "km_step st row =
     (case st of (s, risk) \<Rightarrow> case row of (t, w_total, d) \<Rightarrow>
        (if fgt risk (Fin 0) \<and> fgt d (Fin 0)
         then fmul s (py_max (Fin 0) (fsub (Fin 1) (fdiv d risk))) else s,
         fsub risk w_total))"

text \<open>The loop over the rows of \<open>grouped\<close>, leaving at the first duration beyond the horizon.\<close>

fun km_loop :: "fl \<Rightarrow> fl \<times> fl \<Rightarrow> (fl \<times> fl \<times> fl) list \<Rightarrow> fl \<times> fl" where
  "km_loop h st [] = st"
| "km_loop h st (row # rows) =
     (if fgt (fst row) h then st else km_loop h (km_step st row) rows)"

definition weighted_km_risk_at :: "km_row list \<Rightarrow> fl \<Rightarrow> fl" where
  "weighted_km_risk_at df horizon_days =
     (let work = km_dropna df in
      if work = [] then NaN
      else let total_w = pd_sum (map weight work) in
        if fle total_w (Fin 0) then NaN
        else fsub (Fin 1) (fst (km_loop horizon_days (Fin 1, total_w) (km_grouped work))))"

text \<open>
  The successive states \<open>(s, risk)\<close> of the loop, from the initial one to the one it leaves
  with, and the rows of \<open>grouped\<close> whose body it runs.
\<close>

fun km_states :: "fl \<Rightarrow> fl \<times> fl \<Rightarrow> (fl \<times> fl \<times> fl) list \<Rightarrow> (fl \<times> fl) list" where
  "km_states h st [] = [st]"
| "km_states h st (row # rows) =
     (if fgt (fst row) h then [st] else st # km_states h (km_step st row) rows)"

definition km_processed :: "fl \<Rightarrow> (fl \<times> fl \<times> fl) list \<Rightarrow> (fl \<times> fl \<times> fl) list" where
  "km_processed h rows = takeWhile (\<lambda>row. \<not> fgt (fst row) h) rows"

text \<open>A small frame with a missing duration, a missing event and a tie-free set of durations.\<close>

definition km_example :: "km_row list" where
  "km_example =
     [\<lparr>duration = Fin 3, event = Some 1, weight = Fin 2\<rparr>,
      \<lparr>duration = Fin 1, event = Some 1, weight = Fin 1\<rparr>,
      \<lparr>duration = NaN, event = Some 1, weight = Fin 1\<rparr>,
      \<lparr>duration = Fin 2, event = Some 0, weight = Fin 1\<rparr>,
      \<lparr>duration = Fin 5, event = Some 1, weight = Fin 1\<rparr>,
      \<lparr>duration = Fin 1, event = None, weight = Fin 7\<rparr>]"

section \<open>Competing risks (\<^verbatim>\<open>effects.py\<close>)\<close>


subsection \<open>\<^verbatim>\<open>_weighted_aj_cif_at\<close>\<close>








fun cumsum_from :: "real \<Rightarrow> real list \<Rightarrow> real list" where
  "cumsum_from acc [] = []"
| "cumsum_from acc (x # xs) = (acc + x) # cumsum_from (acc + x) xs"





subsection \<open>\<^verbatim>\<open>weighted_competing_risk_cif_rr_at\<close>: resolving the follow-up\<close>

text \<open>
  A row of the frame restricted to the six columns the function reads. A missing cell is
  NaN in a float column and \<open>None\<close> in an integer column.
\<close>

record cr_row =
  treatment :: "int option"
  interest_event :: "int option"
  interest_time :: fl
  competing_event :: "int option"
  competing_time :: fl
  iptw :: fl



text \<open>
  The (time, status) pair of one subject, from the event flags \<open>ei\<close>, \<open>ec\<close> and the times
  \<open>ti\<close>, \<open>tc\<close>: the element-wise reading of the array code that builds \<open>censor_time\<close>,
  \<open>interest_time\<close>, \<open>comp_time\<close>, the masks \<open>m1\<close> and \<open>m2\<close>, and then overwrites \<open>status\<close>
  and \<open>time\<close> under \<open>m1\<close> and under \<open>m2\<close>, in that order.
\<close>

definition resolve_follow_up :: "real \<Rightarrow> int \<Rightarrow> fl \<Rightarrow> int \<Rightarrow> fl \<Rightarrow> fl \<times> int" where
  "resolve_follow_up horizon ei ti ec tc =
     (let censor_time = np_minimum ti (Fin horizon);
          interest_time = (if ei = 1 then np_minimum ti (Fin horizon) else PInf);
          comp_time = (if ec = 1 \<and> isfinite tc \<and> fle tc (Fin horizon)
                       then np_minimum tc (Fin horizon) else PInf);
          m1 = (fle interest_time comp_time \<and> fle interest_time censor_time);
          m2 = (flt comp_time interest_time \<and> fle comp_time censor_time);
          status1 = (if m1 then 1 else 0);
          time1 = (if m1 then interest_time else censor_time)
      in (if m2 then comp_time else time1, if m2 then 2 else status1))"


subsection \<open>\<^verbatim>\<open>weighted_competing_risk_cif_rr_at\<close>: estimates and bootstrap\<close>


















subsection \<open>Auxiliary definitions for the analysis of \<^verbatim>\<open>_weighted_aj_cif_at\<close>\<close>






definition aj_cap :: "real \<Rightarrow> real \<times> int \<times> real \<Rightarrow> real \<times> int \<times> real" where
  "aj_cap h r = (min (fst r) h, snd r)"

definition aj_val :: "(int \<Rightarrow> bool) \<Rightarrow> real \<times> int \<times> real \<Rightarrow> real" where
  "aj_val sel r = (case r of (t, s, w) \<Rightarrow> w * (if sel s then 1 else 0))"





section \<open>Weighted Cox model (\<^verbatim>\<open>effects.py\<close>, \<^verbatim>\<open>fit_weighted_cox\<close>)\<close>


















section \<open>Random-effects meta-analysis (\<^verbatim>\<open>meta.py\<close>)\<close>

record meta_result =
  ratio :: fl
  ratio_lo :: fl
  ratio_hi :: fl
  tau2 :: fl

definition log_se_from_ci :: "fl \<Rightarrow> fl \<Rightarrow> fl \<Rightarrow> fl" where
  "log_se_from_ci est lo hi = fdiv (fsub (flog hi) (flog lo)) (Fin (2 * (196 / 100)))"

text \<open>The mask of \<open>random_effects_meta_ratio\<close>: finite and positive ratio and CI bounds.\<close>

definition meta_valid :: "fl \<times> fl \<times> fl \<Rightarrow> bool" where
  "meta_valid s = (case s of (r, lo, hi) \<Rightarrow>
     isfinite r \<and> isfinite lo \<and> isfinite hi \<and> fgt r (Fin 0) \<and> fgt lo (Fin 0) \<and> fgt hi (Fin 0))"

definition random_effects_meta_ratio :: "fl list \<Rightarrow> fl list \<Rightarrow> fl list \<Rightarrow> meta_result option" where
  "random_effects_meta_ratio ratios ratio_los ratio_his =
     (let studies = filter meta_valid (zip ratios (zip ratio_los ratio_his)) in
      if length studies < 2 then None
      else
        let yi = map (\<lambda>(r, lo, hi). flog r) studies;
            sei = map (\<lambda>(r, lo, hi). log_se_from_ci r lo hi) studies;
            vi = map (\<lambda>s. fmul s s) sei;
            wi = map (\<lambda>v. fdiv (Fin 1) v) vi;
            y_fixed = fdiv (np_sum (map2 fmul wi yi)) (np_sum wi);
            q = np_sum (map2 fmul wi (map (\<lambda>y. fmul (fsub y y_fixed) (fsub y y_fixed)) yi));
            df = Fin (real (length studies - 1));
            c = fsub (np_sum wi) (fdiv (np_sum (map (\<lambda>w. fmul w w) wi)) (np_sum wi));
            tau2 = (if fgt c (Fin 0) then py_max (Fin 0) (fdiv (fsub q df) c) else Fin 0);
            wi_star = map (\<lambda>v. fdiv (Fin 1) (fadd v tau2)) vi;
            y_re = fdiv (np_sum (map2 fmul wi_star yi)) (np_sum wi_star);
            se_re = fsqrt (fdiv (Fin 1) (np_sum wi_star))
        in Some \<lparr>ratio = fexp y_re,
                 ratio_lo = fexp (fsub y_re (fmul (Fin (196 / 100)) se_re)),
                 ratio_hi = fexp (fadd y_re (fmul (Fin (196 / 100)) se_re)),
                 tau2 = tau2\<rparr>)"

text \<open>
  One cohort's cells in a row of the merged frame of \<open>combine_effect_tables\<close>; a missing
  cell is NaN for a number and \<open>None\<close> for the effect-type label.
\<close>

record effect_cell =
  cell_ratio :: fl
  cell_lo :: fl
  cell_hi :: fl
  cell_effect_type :: "string option"

text \<open>The candidate studies of a row: the cohorts whose ratio and CI bounds are all present.\<close>

definition pool_candidates :: "effect_cell list \<Rightarrow> effect_cell list" where
  "pool_candidates cells =
     filter (\<lambda>c. \<not> isnan (cell_ratio c) \<and> \<not> isnan (cell_lo c) \<and> \<not> isnan (cell_hi c)) cells"

text \<open>The list \<open>effect_types\<close>: the labels that the candidate studies carry.\<close>

definition pool_effect_types :: "effect_cell list \<Rightarrow> string list" where
  "pool_effect_types cells =
     List.map_filter cell_effect_type (pool_candidates cells)"

text \<open>
  The body of the loop over the merged rows, for the cells of the two cohorts in the order
  \<open>[label_a, label_b]\<close>: the value of \<open>meta\<close>.
\<close>

definition pool_row :: "effect_cell list \<Rightarrow> meta_result option" where
  "pool_row cells =
     (if length (remdups (pool_effect_types cells)) > 1 then None
      else random_effects_meta_ratio (map cell_ratio (pool_candidates cells))
             (map cell_lo (pool_candidates cells)) (map cell_hi (pool_candidates cells)))"

section \<open>Example inputs\<close>



definition meta_example_mixed :: "effect_cell list" where
  "meta_example_mixed =
     [\<lparr>cell_ratio = Fin (12 / 10), cell_lo = Fin 1, cell_hi = Fin (144 / 100),
       cell_effect_type = Some ''hr''\<rparr>,
      \<lparr>cell_ratio = Fin (12 / 10), cell_lo = Fin 1, cell_hi = Fin (144 / 100),
       cell_effect_type = Some ''rr''\<rparr>]"

definition meta_example_same :: "effect_cell list" where
  "meta_example_same =
     [\<lparr>cell_ratio = Fin (12 / 10), cell_lo = Fin 1, cell_hi = Fin (144 / 100),
       cell_effect_type = Some ''hr''\<rparr>,
      \<lparr>cell_ratio = Fin (12 / 10), cell_lo = Fin 1, cell_hi = Fin (144 / 100),
       cell_effect_type = Some ''hr''\<rparr>]"



section \<open>Properties of the floating-point model\<close>




section \<open>Kish effective sample size: claim C6\<close>












section \<open>Weighted binary risks: claim C2\<close>




lemma fsub_NaN [simp]: "fsub NaN b = NaN" "fsub a NaN = NaN"
  by (cases a; simp add: fsub_def)+

lemma fgt_NaN [simp]: "\<not> fgt NaN b" "\<not> fgt a NaN"
  by (cases a; cases b; simp add: fgt_def)+

lemma fdiv_NaN_left [simp]: "fdiv NaN b = NaN"
  by simp


lemma masked_simps [simp]:
  "masked [] xs = []"
  "masked ms [] = []"
  "masked (True # ms) (x # xs) = x # masked ms xs"
  "masked (False # ms) (x # xs) = masked ms xs"
  by (simp_all add: masked_def)



section \<open>Standardized mean difference: claim C9\<close>

lemma np_sum_constant:
  "list_all (\<lambda>v. v = Fin a) xs \<Longrightarrow> np_sum xs = Fin (real (length xs) * a)"
  by (induction xs) (auto simp: np_sum_def algebra_simps)

lemma np_mean_constant:
  assumes "list_all (\<lambda>v. v = Fin a) xs" "xs \<noteq> []"
  shows "np_mean xs = Fin a"
  using assms by (simp add: np_mean_def np_sum_constant)

lemma np_var_constant:
  assumes "list_all (\<lambda>v. v = Fin a) xs" "xs \<noteq> []"
  shows "np_var xs = Fin 0"
proof -
  have "list_all (\<lambda>v. v = Fin 0) (map (\<lambda>v. fmul (fsub v (Fin a)) (fsub v (Fin a))) xs)"
    using assms(1) by (induction xs) (auto simp: fsub_def)
  then have "np_mean (map (\<lambda>v. fmul (fsub v (Fin a)) (fsub v (Fin a))) xs) = Fin 0"
    using assms(2) by (intro np_mean_constant) simp_all
  then show ?thesis by (simp add: np_var_def Let_def np_mean_constant [OF assms])
qed

text \<open>
  A covariate that is constant within each of two non-empty arms is a degenerate one:
  its pooled standard deviation is zero.
\<close>

lemma smd_pooled_constant_arms:
  assumes "list_all (\<lambda>v. v = Fin a) (masked (map (\<lambda>v. v = 1) t) x)"
    and "list_all (\<lambda>v. v = Fin b) (masked (map (\<lambda>v. v = 0) t) x)"
    and "masked (map (\<lambda>v. v = 1) t) x \<noteq> []" and "masked (map (\<lambda>v. v = 0) t) x \<noteq> []"
  shows "smd_pooled x t None = Fin 0"
  using assms by (simp add: smd_pooled_def smd_moments_def Let_def np_var_constant)



section \<open>Weighted Kaplan--Meier: claims C4 and C10\<close>

lemma fle_unit_iff:
  "fle (Fin 0) s \<and> fle s (Fin 1) \<longleftrightarrow> (\<exists>x. s = Fin x \<and> 0 \<le> x \<and> x \<le> 1)"
  by (cases s) (auto simp: fle_def feq_def)

lemma km_factor_unit:
  assumes "fgt risk (Fin 0)" "fgt d (Fin 0)"
  shows "\<exists>f. py_max (Fin 0) (fsub (Fin 1) (fdiv d risk)) = Fin f \<and> 0 \<le> f \<and> f \<le> 1"
proof (cases risk)
  case (Fin r)
  with assms have r: "0 < r" by (simp add: fgt_def)
  show ?thesis
  proof (cases d)
    case (Fin e)
    with assms have e: "0 < e" by (simp add: fgt_def)
    have "0 < e / r" using e r by simp
    then show ?thesis
      using \<open>risk = Fin r\<close> \<open>d = Fin e\<close> r
      by (auto simp: py_max_def fgt_def fsub_def)
  qed (use assms \<open>risk = Fin r\<close> r in \<open>auto simp: py_max_def fgt_def fsub_def\<close>)
next
  case PInf
  then show ?thesis using assms
    by (cases d) (auto simp: py_max_def fgt_def fsub_def)
qed (use assms in \<open>auto simp: fgt_def\<close>)

lemma km_step_unit:
  assumes "s = Fin x" "0 \<le> x" "x \<le> 1"
  shows "\<exists>y. fst (km_step (s, risk) row) = Fin y \<and> 0 \<le> y \<and> y \<le> x"
proof (cases "fgt risk (Fin 0) \<and> fgt (snd (snd row)) (Fin 0)")
  case True
  then obtain f where f: "py_max (Fin 0) (fsub (Fin 1) (fdiv (snd (snd row)) risk)) = Fin f"
      "0 \<le> f" "f \<le> 1"
    using km_factor_unit by blast
  have "x * f \<le> x * 1" using f assms by (intro mult_left_mono) simp_all
  then show ?thesis using True f assms
    by (auto simp: km_step_def split: prod.splits)
next
  case False
  then show ?thesis using assms by (auto simp: km_step_def split: prod.splits)
qed

lemma km_step_frozen:
  "\<not> fgt risk (Fin 0) \<Longrightarrow> fst (km_step (s, risk) row) = s"
  by (auto simp: km_step_def split: prod.splits)

lemma km_step_risk_stays:
  assumes "\<not> fgt risk (Fin 0)" "nonneg_finite (fst (snd row))"
  shows "\<not> fgt (snd (km_step (s, risk) row)) (Fin 0)"
proof -
  obtain v where v: "fst (snd row) = Fin v" "0 \<le> v"
    using assms(2) by (cases "fst (snd row)") auto
  show ?thesis using assms(1) v
    by (cases risk) (auto simp: km_step_def fgt_def fsub_def split: prod.splits)
qed

lemma km_states_nonempty [simp]: "km_states h st rows \<noteq> []"
  by (cases rows) simp_all

lemma km_states_hd [simp]: "km_states h st rows ! 0 = st"
  by (cases rows) simp_all

lemma km_loop_last: "km_loop h st rows = last (km_states h st rows)"
  by (induction rows arbitrary: st) simp_all

lemma km_states_length:
  "length (km_states h st rows) = Suc (length (km_processed h rows))"
  by (induction rows arbitrary: st) (simp_all add: km_processed_def)

lemma km_states_step:
  "i < length (km_processed h rows) \<Longrightarrow>
     km_states h st rows ! Suc i = km_step (km_states h st rows ! i) (km_processed h rows ! i)"
proof (induction rows arbitrary: st i)
  case Nil
  then show ?case by (simp add: km_processed_def)
next
  case (Cons row rows)
  then have nb: "\<not> fgt (fst row) h" by (auto simp: km_processed_def split: if_splits)
  show ?case
  proof (cases i)
    case 0
    then show ?thesis using nb by (simp add: km_processed_def)
  next
    case (Suc k)
    with Cons.prems nb have "k < length (km_processed h rows)" by (simp add: km_processed_def)
    from Cons.IH [OF this, of "km_step st row"] show ?thesis
      using nb Suc by (simp add: km_processed_def)
  qed
qed

lemma km_states_unit:
  assumes "fst st = Fin x" "0 \<le> x" "x \<le> 1"
  shows "\<forall>st'\<in>set (km_states h st rows). \<exists>y. fst st' = Fin y \<and> 0 \<le> y \<and> y \<le> x"
  using assms
proof (induction rows arbitrary: st x)
  case Nil
  then show ?case by simp
next
  case (Cons row rows)
  show ?case
  proof (cases "fgt (fst row) h")
    case True
    then show ?thesis using Cons.prems by simp
  next
    case False
    obtain y where y: "fst (km_step st row) = Fin y" "0 \<le> y" "y \<le> x"
      using km_step_unit [OF Cons.prems, of "snd st" row] by auto
    have "y \<le> 1" using y Cons.prems by simp
    from Cons.IH [OF y(1) y(2) this]
    have "\<forall>st'\<in>set (km_states h (km_step st row) rows). \<exists>z. fst st' = Fin z \<and> 0 \<le> z \<and> z \<le> x"
      using y(3) by fastforce
    then show ?thesis using False Cons.prems by simp
  qed
qed

lemma km_states_frozen:
  assumes "\<not> fgt (snd st) (Fin 0)" "list_all (\<lambda>row. nonneg_finite (fst (snd row))) rows"
  shows "\<forall>st'\<in>set (km_states h st rows). fst st' = fst st"
  using assms
proof (induction rows arbitrary: st)
  case Nil
  then show ?case by simp
next
  case (Cons row rows)
  have a: "fst (km_step st row) = fst st"
    using km_step_frozen [OF Cons.prems(1), of "fst st" row] by simp
  have b: "\<not> fgt (snd (km_step st row)) (Fin 0)"
    using km_step_risk_stays [of "snd st" row "fst st"] Cons.prems by simp
  from Cons.IH [OF b] Cons.prems(2) a show ?case by simp
qed

lemma km_states_drop:
  "i < length (km_states h st rows) \<Longrightarrow>
     drop i (km_states h st rows) = km_states h (km_states h st rows ! i) (drop i rows)"
proof (induction rows arbitrary: st i)
  case Nil
  then show ?case by simp
next
  case (Cons row rows)
  show ?case
  proof (cases i)
    case 0
    then show ?thesis by simp
  next
    case (Suc k)
    with Cons.prems have nb: "\<not> fgt (fst row) h" by (auto split: if_splits)
    with Cons.prems Suc have "k < length (km_states h (km_step st row) rows)" by simp
    from Cons.IH [OF this] show ?thesis using nb Suc by simp
  qed
qed

lemma pd_sum_nonneg_finite:
  "list_all nonneg_finite ws \<Longrightarrow> nonneg_finite (pd_sum ws)"
proof (induction ws)
  case Nil
  then show ?case by (simp add: pd_sum_def np_sum_def)
next
  case (Cons a ws)
  then obtain v s where "a = Fin v" "0 \<le> v" "pd_sum ws = Fin s" "0 \<le> s"
    by (cases a; cases "pd_sum ws") auto
  then show ?case by (simp add: pd_sum_def np_sum_def)
qed

lemma km_grouped_nonneg:
  assumes "list_all (\<lambda>r. nonneg_finite (weight r)) work"
  shows "list_all (\<lambda>row. nonneg_finite (fst (snd row))) (km_grouped work)"
proof -
  have "nonneg_finite (pd_sum (map weight (filter P work)))" for P
    using assms by (intro pd_sum_nonneg_finite) (auto simp: list_all_iff)
  then show ?thesis by (simp add: km_grouped_def list_all_iff)
qed

lemma less_fl_flt: "a < b \<Longrightarrow> \<not> isnan b \<Longrightarrow> flt a b"
  by (cases a; cases b) (auto simp: less_fl_def)

lemma km_grouped_times:
  "map fst (km_grouped work) = sort (remdups (map duration work))"
  by (simp add: km_grouped_def comp_def)

lemma km_grouped_ascending:
  assumes "i < j" "j < length (km_grouped (km_dropna df))"
  shows "flt (fst (km_grouped (km_dropna df) ! i)) (fst (km_grouped (km_dropna df) ! j))"
proof -
  let ?ts = "map fst (km_grouped (km_dropna df))"
  have s: "sorted ?ts" and d: "distinct ?ts" by (simp_all add: km_grouped_times)
  have len: "j < length ?ts" "i < length ?ts" using assms by simp_all
  have "?ts ! i \<le> ?ts ! j" using assms(1) by (intro sorted_nth_mono [OF s _ len(1)]) simp
  moreover have "?ts ! i \<noteq> ?ts ! j"
    using d assms(1) len nth_eq_iff_index_eq [OF d len(2) len(1)] by simp
  ultimately have lt: "?ts ! i < ?ts ! j" by simp
  have "?ts ! j \<in> set ?ts" using len(1) by (rule nth_mem)
  then have "?ts ! j \<in> set (map duration (km_dropna df))"
    unfolding km_grouped_times by simp
  then have "\<not> isnan (?ts ! j)" by (auto simp: km_dropna_def)
  from less_fl_flt [OF lt this] show ?thesis using len by simp
qed

lemma km_processed_prefix:
  "km_processed h rows = take (length (km_processed h rows)) rows"
  unfolding km_processed_def by (metis takeWhile_eq_take)

text \<open>
  Claim C4. When the loop of \<open>weighted_km_risk_at\<close> runs (some row survives \<^verbatim>\<open>dropna\<close>
  and the total weight is positive), its states \<open>(S, risk)\<close> are \<open>states\<close>, one more than the
  rows it processes; the function returns \<open>1 - S\<close> for the last one. \<open>S\<close> starts at \<open>1.0\<close>,
  lies in \<open>[0, 1]\<close> in every state and never increases from one state to the next. A
  state whose at-risk total is not positive leaves \<open>S\<close> unchanged, and, the weights being
  finite and non-negative, so does every later state. The processed rows are an initial
  segment of \<open>grouped\<close>, their durations strictly ascending, none beyond the horizon.
\<close>

theorem weighted_km_survival_invariant:
  assumes "work = km_dropna df" and "work \<noteq> []"
    and "total_w = pd_sum (map weight work)" and "\<not> fle total_w (Fin 0)"
    and "states = km_states h (Fin 1, total_w) (km_grouped work)"
    and "processed = km_processed h (km_grouped work)"
  shows "weighted_km_risk_at df h = fsub (Fin 1) (fst (last states))
    \<and> length states = Suc (length processed)
    \<and> (\<forall>i<length processed. states ! Suc i = km_step (states ! i) (processed ! i))
    \<and> fst (states ! 0) = Fin 1
    \<and> (\<forall>st\<in>set states. fle (Fin 0) (fst st) \<and> fle (fst st) (Fin 1))
    \<and> (\<forall>i. Suc i < length states \<longrightarrow> fle (fst (states ! Suc i)) (fst (states ! i)))
    \<and> (\<forall>i<length processed. \<not> fgt (snd (states ! i)) (Fin 0) \<longrightarrow>
          fst (states ! Suc i) = fst (states ! i))
    \<and> (list_all (\<lambda>r. nonneg_finite (weight r)) work \<longrightarrow>
         (\<forall>i j. i \<le> j \<and> j < length states \<and> \<not> fgt (snd (states ! i)) (Fin 0) \<longrightarrow>
            fst (states ! j) = fst (states ! i)))
    \<and> processed = take (length processed) (km_grouped work)
    \<and> (\<forall>row\<in>set processed. \<not> fgt (fst row) h)
    \<and> (\<forall>i j. i < j \<and> j < length processed \<longrightarrow>
          flt (fst (processed ! i)) (fst (processed ! j)))"
proof (intro conjI)
  let ?st0 = "(Fin 1, total_w)"
  let ?rows = "km_grouped work"
  show "weighted_km_risk_at df h = fsub (Fin 1) (fst (last states))"
    using assms by (simp add: weighted_km_risk_at_def Let_def km_loop_last)
  show len: "length states = Suc (length processed)"
    using assms by (simp add: km_states_length)
  show step: "\<forall>i<length processed. states ! Suc i = km_step (states ! i) (processed ! i)"
    using assms by (simp add: km_states_step)
  show "fst (states ! 0) = Fin 1" using assms by simp
  have unit: "\<forall>st'\<in>set states. \<exists>y. fst st' = Fin y \<and> 0 \<le> y \<and> y \<le> 1"
    unfolding assms(5) by (rule km_states_unit) simp_all
  then show "\<forall>st\<in>set states. fle (Fin 0) (fst st) \<and> fle (fst st) (Fin 1)"
    by (simp add: fle_unit_iff)
  show "\<forall>i. Suc i < length states \<longrightarrow> fle (fst (states ! Suc i)) (fst (states ! i))"
  proof (intro allI impI)
    fix i assume i: "Suc i < length states"
    then have ip: "i < length processed" using len by simp
    have "states ! i \<in> set states" using i by simp
    then obtain x where x: "fst (states ! i) = Fin x" "0 \<le> x" "x \<le> 1" using unit by blast
    obtain y where y: "fst (km_step (fst (states ! i), snd (states ! i)) (processed ! i)) = Fin y"
        "0 \<le> y" "y \<le> x"
      using km_step_unit [OF x] by blast
    have "states ! Suc i = km_step (fst (states ! i), snd (states ! i)) (processed ! i)"
      using step ip by (simp del: fst_conv snd_conv)
    then have "fst (states ! Suc i) = Fin y" using y(1) by simp
    then show "fle (fst (states ! Suc i)) (fst (states ! i))"
      using x y by (auto simp add: fle_def feq_def)
  qed
  show "\<forall>i<length processed. \<not> fgt (snd (states ! i)) (Fin 0) \<longrightarrow>
          fst (states ! Suc i) = fst (states ! i)"
    using step km_step_frozen [of "snd (states ! i)" "fst (states ! i)" for i]
    by (metis km_step_frozen prod.collapse)
  show "list_all (\<lambda>r. nonneg_finite (weight r)) work \<longrightarrow>
         (\<forall>i j. i \<le> j \<and> j < length states \<and> \<not> fgt (snd (states ! i)) (Fin 0) \<longrightarrow>
            fst (states ! j) = fst (states ! i))"
  proof (intro impI allI, elim conjE)
    fix i j
    assume nn: "list_all (\<lambda>r. nonneg_finite (weight r)) work"
      and ij: "i \<le> j" "j < length states" and z: "\<not> fgt (snd (states ! i)) (Fin 0)"
    have i: "i < length states" using ij by simp
    have d: "drop i states = km_states h (states ! i) (drop i ?rows)"
      using i unfolding assms(5) by (rule km_states_drop)
    have "list_all (\<lambda>row. nonneg_finite (fst (snd row))) (drop i ?rows)"
      using km_grouped_nonneg [OF nn] by (auto simp: list_all_iff dest: in_set_dropD)
    from km_states_frozen [OF z this, of h]
    have fr: "\<forall>st'\<in>set (drop i states). fst st' = fst (states ! i)" using d by simp
    have "states ! j = drop i states ! (j - i)" using ij by simp
    moreover have "j - i < length (drop i states)" using ij by simp
    ultimately have "states ! j \<in> set (drop i states)" by (metis nth_mem)
    with fr show "fst (states ! j) = fst (states ! i)" by blast
  qed
  show pre: "processed = take (length processed) (km_grouped work)"
    unfolding assms(6) by (rule km_processed_prefix)
  show "\<forall>row\<in>set processed. \<not> fgt (fst row) h"
    unfolding assms(6) km_processed_def by (auto dest: set_takeWhileD)
  show "\<forall>i j. i < j \<and> j < length processed \<longrightarrow>
          flt (fst (processed ! i)) (fst (processed ! j))"
  proof (intro allI impI, elim conjE)
    fix i j assume ij: "i < j" "j < length processed"
    have le: "length processed \<le> length ?rows"
      unfolding assms(6) km_processed_def by (rule length_takeWhile_le)
    have "processed ! i = ?rows ! i" "processed ! j = ?rows ! j"
      using ij by (subst pre, simp)+
    moreover have "flt (fst (?rows ! i)) (fst (?rows ! j))"
      unfolding assms(1) by (rule km_grouped_ascending) (use ij le assms(1) in simp_all)
    ultimately show "flt (fst (processed ! i)) (fst (processed ! j))" by simp
  qed
qed

text \<open>
  Claim C10. If no row is left after \<^verbatim>\<open>dropna\<close>, or the total of the remaining weights
  is not positive, \<open>weighted_km_risk_at\<close> returns NaN; the function has no raising branch.
\<close>

theorem weighted_km_risk_at_degenerate:
  "km_dropna df = [] \<or> fle (pd_sum (map weight (km_dropna df))) (Fin 0) \<Longrightarrow>
     weighted_km_risk_at df h = NaN"
  by (auto simp: weighted_km_risk_at_def Let_def)


lemma km_example_dropna:
  "km_dropna km_example =
     [\<lparr>duration = Fin 3, event = Some 1, weight = Fin 2\<rparr>,
      \<lparr>duration = Fin 1, event = Some 1, weight = Fin 1\<rparr>,
      \<lparr>duration = Fin 2, event = Some 0, weight = Fin 1\<rparr>,
      \<lparr>duration = Fin 5, event = Some 1, weight = Fin 1\<rparr>]"
  by (simp add: km_example_def km_dropna_def)

lemma km_example_grouped:
  "km_grouped (km_dropna km_example) =
     [(Fin 1, Fin 1, Fin 1), (Fin 2, Fin 1, Fin 0), (Fin 3, Fin 2, Fin 2), (Fin 5, Fin 1, Fin 1)]"
  by (simp add: km_example_dropna km_grouped_def pd_sum_def np_sum_def km_w_event_def)

lemma km_example_states:
  "km_states (Fin 4) (Fin 1, Fin 5) (km_grouped (km_dropna km_example)) =
     [(Fin 1, Fin 5), (Fin (4 / 5), Fin 4), (Fin (4 / 5), Fin 3), (Fin (4 / 15), Fin 1)]"
  by (simp add: km_example_grouped km_step_def fgt_def py_max_def fsub_def)

theorem weighted_km_survival_invariant_witness:
  "km_dropna km_example \<noteq> []
   \<and> \<not> fle (pd_sum (map weight (km_dropna km_example))) (Fin 0)
   \<and> km_states (Fin 4) (Fin 1, pd_sum (map weight (km_dropna km_example)))
         (km_grouped (km_dropna km_example)) =
       [(Fin 1, Fin 5), (Fin (4 / 5), Fin 4), (Fin (4 / 5), Fin 3), (Fin (4 / 15), Fin 1)]
   \<and> km_processed (Fin 4) (km_grouped (km_dropna km_example)) =
       [(Fin 1, Fin 1, Fin 1), (Fin 2, Fin 1, Fin 0), (Fin 3, Fin 2, Fin 2)]
   \<and> weighted_km_risk_at km_example (Fin 4) = Fin (11 / 15)"
proof -
  have ne: "km_dropna km_example \<noteq> []" by (simp add: km_example_dropna)
  have tw: "pd_sum (map weight (km_dropna km_example)) = Fin 5"
    by (simp add: km_example_dropna pd_sum_def np_sum_def)
  have pos: "\<not> fle (pd_sum (map weight (km_dropna km_example))) (Fin 0)"
    by (simp add: tw fle_def feq_def)
  have pr: "km_processed (Fin 4) (km_grouped (km_dropna km_example)) =
       [(Fin 1, Fin 1, Fin 1), (Fin 2, Fin 1, Fin 0), (Fin 3, Fin 2, Fin 2)]"
    by (simp add: km_example_grouped km_processed_def fgt_def)
  from weighted_km_survival_invariant [OF refl ne refl pos refl refl, of "Fin 4"]
  have "weighted_km_risk_at km_example (Fin 4) =
      fsub (Fin 1) (fst (last (km_states (Fin 4) (Fin 1, pd_sum (map weight (km_dropna km_example)))
         (km_grouped (km_dropna km_example)))))"
    by blast
  then have "weighted_km_risk_at km_example (Fin 4) = Fin (11 / 15)"
    by (simp add: tw km_example_states fsub_def)
  then show ?thesis using ne pos pr by (simp add: tw km_example_states)
qed

theorem weighted_km_risk_at_degenerate_witness:
  "km_dropna [\<lparr>duration = NaN, event = Some 1, weight = Fin 1\<rparr>] = []
   \<and> weighted_km_risk_at [\<lparr>duration = NaN, event = Some 1, weight = Fin 1\<rparr>] (Fin 28) = NaN
   \<and> fle (pd_sum (map weight (km_dropna [\<lparr>duration = Fin 2, event = Some 1, weight = Fin 0\<rparr>]))) (Fin 0)
   \<and> weighted_km_risk_at [\<lparr>duration = Fin 2, event = Some 1, weight = Fin 0\<rparr>] (Fin 28) = NaN"
proof -
  have a: "km_dropna [\<lparr>duration = NaN, event = Some 1, weight = Fin 1\<rparr>] = []"
    by (simp add: km_dropna_def)
  have b: "fle (pd_sum (map weight (km_dropna [\<lparr>duration = Fin 2, event = Some 1, weight = Fin 0\<rparr>]))) (Fin 0)"
    by (simp add: km_dropna_def pd_sum_def np_sum_def fle_def feq_def)
  show ?thesis
    using a b weighted_km_risk_at_degenerate [OF disjI1 [OF a], of "Fin 28"]
      weighted_km_risk_at_degenerate [OF disjI2 [OF b], of "Fin 28"]
    by simp
qed

section \<open>Resolving the follow-up: claim C1\<close>

text \<open>
  Claim C1, as amended. A subject whose interest time is not missing is resolved to one
  (time, status) pair with status 0, 1 or 2 and a time at or before the horizon. A
  competing event with a finite time at or before the horizon gives status 2 at its time
  when it is not later than the interest time of a subject without interest event, or
  strictly earlier than the capped interest time of a subject with one. An interest event
  at or before the horizon that no competing event strictly precedes gives status 1 at
  its time. A subject without interest event and without competing event at or before its
  capped interest time is censored, status 0, at the interest time capped to the horizon.
\<close>

theorem resolve_follow_up_cases:
  assumes "\<not> isnan ti"
  shows "snd (resolve_follow_up h ei ti ec tc) \<in> {0, 1, 2}
    \<and> fle (fst (resolve_follow_up h ei ti ec tc)) (Fin h)
    \<and> (ec = 1 \<and> isfinite tc \<and> fle tc (Fin h)
         \<and> (if ei = 1 then flt tc (np_minimum ti (Fin h)) else fle tc ti)
        \<longrightarrow> resolve_follow_up h ei ti ec tc = (tc, 2))
    \<and> (ei = 1 \<and> fle ti (Fin h) \<and> \<not> (ec = 1 \<and> isfinite tc \<and> flt tc ti)
        \<longrightarrow> resolve_follow_up h ei ti ec tc = (ti, 1))
    \<and> (ei \<noteq> 1 \<and> \<not> (ec = 1 \<and> isfinite tc \<and> fle tc (np_minimum ti (Fin h)))
        \<longrightarrow> resolve_follow_up h ei ti ec tc = (np_minimum ti (Fin h), 0))"
  using assms
  by (cases ti; cases tc)
     (auto simp: resolve_follow_up_def Let_def np_minimum_def fle_def feq_def split: if_splits)

theorem resolve_follow_up_cases_witness:
  "\<not> isnan (Fin 7)
   \<and> resolve_follow_up 14 0 (Fin 7) 1 (Fin 5) = (Fin 5, 2)
   \<and> resolve_follow_up 14 1 (Fin 7) 1 (Fin 9) = (Fin 7, 1)
   \<and> resolve_follow_up 14 0 (Fin 20) 0 NaN = (Fin 14, 0)"
proof -
  have n: "\<not> isnan (Fin 7)" "\<not> isnan (Fin 20)" by simp_all
  have a: "resolve_follow_up 14 0 (Fin 7) 1 (Fin 5) = (Fin 5, 2)"
    using resolve_follow_up_cases [OF n(1), of 14 0 1 "Fin 5"]
    by (simp add: fle_def feq_def)
  have b: "resolve_follow_up 14 1 (Fin 7) 1 (Fin 9) = (Fin 7, 1)"
    using resolve_follow_up_cases [OF n(1), of 14 1 1 "Fin 9"]
    by (simp add: fle_def feq_def)
  have c: "resolve_follow_up 14 0 (Fin 20) 0 NaN = (Fin 14, 0)"
    using resolve_follow_up_cases [OF n(2), of 14 0 0 NaN]
    by (simp add: np_minimum_def)
  show ?thesis using a b c by simp
qed

text \<open>
  Claim C1 as stated fails on two subjects, for a horizon of 14 days. The first has no
  interest event, is followed for 3 days and has a competing event on day 5: the competing
  event is at or before the horizon, yet the subject is censored on day 3, because
  \<open>m2\<close> requires \<open>comp_time <= censor_time\<close>. The second has an interest event on day 20,
  after the horizon: it is not censored at the horizon but given status 1 on day 14,
  because \<open>interest_time\<close> is the capped time whenever the event flag is set.
\<close>

theorem resolve_follow_up_counterexample:
  "resolve_follow_up 14 0 (Fin 3) 1 (Fin 5) = (Fin 3, 0)
   \<and> resolve_follow_up 14 1 (Fin 20) 0 NaN = (Fin 14, 1)"
  by (simp add: resolve_follow_up_def Let_def np_minimum_def fle_def feq_def)

section \<open>Aalen--Johansen cumulative incidence: claim C5\<close>










lemma cumsum_from_nonempty [simp]: "cumsum_from acc xs = [] \<longleftrightarrow> xs = []"
  by (cases xs) simp_all







lemma aj_val_cap [simp]: "aj_val sel (aj_cap h r) = aj_val sel r"
  by (cases r) (simp add: aj_val_def aj_cap_def)



























section \<open>Weighted Cox model: claim C3\<close>




section \<open>Random-effects meta-analysis: claim C7\<close>

text \<open>
  Claim C7. \<open>random_effects_meta_ratio\<close> returns no pooled estimate exactly when fewer
  than two studies pass its mask (finite, strictly positive ratio and CI bounds), so it
  never pools a single study; and for a row of the merged frame whose candidate studies
  carry more than one distinct effect-type label, \<open>combine_effect_tables\<close> sets \<open>meta\<close> to
  \<open>None\<close> without calling the pooling.
\<close>

theorem meta_pooling_requirements:
  "(random_effects_meta_ratio ratios los his = None
      \<longleftrightarrow> length (filter meta_valid (zip ratios (zip los his))) < 2)
   \<and> (length (remdups (pool_effect_types cells)) > 1 \<longrightarrow> pool_row cells = None)
   \<and> (length (filter meta_valid
          (zip (map cell_ratio (pool_candidates cells))
               (zip (map cell_lo (pool_candidates cells)) (map cell_hi (pool_candidates cells))))) < 2
        \<longrightarrow> pool_row cells = None)"
  by (auto simp: random_effects_meta_ratio_def pool_row_def Let_def)

theorem meta_pooling_requirements_witness:
  "length (filter meta_valid (zip [Fin 2, PInf] (zip [Fin 1, Fin 1] [Fin 3, Fin 3]))) = 1
   \<and> random_effects_meta_ratio [Fin 2, PInf] [Fin 1, Fin 1] [Fin 3, Fin 3] = None
   \<and> random_effects_meta_ratio [Fin 2, Fin 2] [Fin 1, Fin 1] [Fin 3, Fin 3] \<noteq> None
   \<and> length (remdups (pool_effect_types meta_example_mixed)) = 2
   \<and> pool_row meta_example_mixed = None
   \<and> pool_row meta_example_same \<noteq> None"
proof -
  have v1: "length (filter meta_valid (zip [Fin 2, PInf] (zip [Fin 1, Fin 1] [Fin 3, Fin 3]))) = 1"
    by (simp add: meta_valid_def fgt_def)
  have v2: "length (filter meta_valid (zip [Fin 2, Fin 2] (zip [Fin 1, Fin 1] [Fin 3, Fin 3]))) = 2"
    by (simp add: meta_valid_def fgt_def)
  have t: "length (remdups (pool_effect_types meta_example_mixed)) = 2"
    by (simp add: pool_effect_types_def pool_candidates_def meta_example_mixed_def map_filter_simps)
  have s: "length (remdups (pool_effect_types meta_example_same)) = 1"
    by (simp add: pool_effect_types_def pool_candidates_def meta_example_same_def map_filter_simps)
  have c: "pool_candidates meta_example_same = meta_example_same"
    by (simp add: pool_candidates_def meta_example_same_def)
  have v3: "length (filter meta_valid
          (zip (map cell_ratio meta_example_same)
               (zip (map cell_lo meta_example_same) (map cell_hi meta_example_same)))) = 2"
    by (simp add: meta_example_same_def meta_valid_def fgt_def)
  have a: "random_effects_meta_ratio [Fin 2, PInf] [Fin 1, Fin 1] [Fin 3, Fin 3] = None"
    using meta_pooling_requirements [of "[Fin 2, PInf]" "[Fin 1, Fin 1]" "[Fin 3, Fin 3]"] v1 by simp
  have b: "random_effects_meta_ratio [Fin 2, Fin 2] [Fin 1, Fin 1] [Fin 3, Fin 3] \<noteq> None"
    using meta_pooling_requirements [of "[Fin 2, Fin 2]" "[Fin 1, Fin 1]" "[Fin 3, Fin 3]"] v2 by simp
  have d: "pool_row meta_example_mixed = None"
    using meta_pooling_requirements [of _ _ _ meta_example_mixed] t by simp
  have e: "pool_row meta_example_same \<noteq> None"
    using meta_pooling_requirements [of "map cell_ratio meta_example_same"
        "map cell_lo meta_example_same" "map cell_hi meta_example_same"] v3 s c
    by (simp add: pool_row_def)
  show ?thesis using v1 a b t d e by simp
qed

section \<open>Bootstrap of the competing-risk estimate: claim C8\<close>












end
